theory Spec2Isabelle
  imports Main
begin

section \<open>Text\<close>

text \<open>
  A Python \<open>str\<close> is a \<^typ>\<open>string\<close>; a \<^typ>\<open>char\<close> stands for the character with
  that code point, so the model covers the code points 0 to 255, and \<open>length\<close> is Python's
  \<open>len\<close>. The character classes below are the ones Python uses in that range.
\<close>

definition isspace :: "char \<Rightarrow> bool" where
  \<comment> \<open>\<open>str.isspace\<close> on one character; the set \<open>str.strip()\<close> removes.\<close>
  "isspace c =
     (let n = (of_char c :: nat)
      in (9 \<le> n \<and> n \<le> 13) \<or> (28 \<le> n \<and> n \<le> 32) \<or> n = 133 \<or> n = 160)"

definition strip :: "string \<Rightarrow> string" where
  \<comment> \<open>\<open>s.strip()\<close>: leading and trailing whitespace removed.\<close>
  "strip s = rev (dropWhile isspace (rev (dropWhile isspace s)))"

definition lower_char :: "char \<Rightarrow> char" where
  \<comment> \<open>\<open>c.lower()\<close>: A to Z and the upper-case letters of Latin-1 move up by 32.\<close>
  "lower_char c =
     (let n = (of_char c :: nat)
      in if (65 \<le> n \<and> n \<le> 90) \<or> (192 \<le> n \<and> n \<le> 214) \<or> (216 \<le> n \<and> n \<le> 222)
         then char_of (n + 32) else c)"

definition lower :: "string \<Rightarrow> string" where
  "lower s = map lower_char s"

fun startswith :: "string \<Rightarrow> string \<Rightarrow> bool" where
  "startswith s [] = True"
| "startswith [] (k # ks) = False"
| "startswith (c # cs) (k # ks) = (c = k \<and> startswith cs ks)"

fun str_contains :: "string \<Rightarrow> string \<Rightarrow> bool" where
  \<comment> \<open>\<open>k in s\<close>: \<open>k\<close> starts at some position of \<open>s\<close>.\<close>
  "str_contains [] k = (k = [])"
| "str_contains (c # cs) k = (startswith (c # cs) k \<or> str_contains cs k)"

fun str_nat :: "nat \<Rightarrow> string" where
  "str_nat n =
     (if n < 10 then [char_of (48 + n)] else str_nat (n div 10) @ [char_of (48 + n mod 10)])"

declare str_nat.simps [simp del]

definition str_int :: "int \<Rightarrow> string" where
  \<comment> \<open>\<open>str(i)\<close>, as an f-string renders an integer.\<close>
  "str_int i = (if i < 0 then CHR ''-'' # str_nat (nat (- i)) else str_nat (nat i))"

subsection \<open>The conversion \<open>int(task_id)\<close>\<close>

text \<open>
  The Service receives the identifier as the console read it (text) or as a caller passed
  it (an integer). \<open>int\<close> of an integer is that integer. \<open>int\<close> of text removes the
  whitespace around it (a narrower set than \<open>strip\<close>: 28 to 31 are not accepted), reads one
  optional sign and then decimal digits, where single underscores may separate digits;
  anything else raises \<open>ValueError\<close>. The interpreter's configurable limit on the number
  of digits is not part of the model.
\<close>

datatype py_exception = ValueError

datatype id_input = Text string | Number int

definition int_space :: "char \<Rightarrow> bool" where
  "int_space c =
     (let n = (of_char c :: nat)
      in (9 \<le> n \<and> n \<le> 13) \<or> n = 32 \<or> n = 133 \<or> n = 160)"

definition isdigit :: "char \<Rightarrow> bool" where
  "isdigit c = (let n = (of_char c :: nat) in 48 \<le> n \<and> n \<le> 57)"

definition digit_value :: "char \<Rightarrow> int" where
  "digit_value c = int (of_char c) - 48"

fun int_digits :: "int \<Rightarrow> string \<Rightarrow> int option" where
  "int_digits acc [] = Some acc"
| "int_digits acc (c # cs) =
     (if isdigit c then int_digits (10 * acc + digit_value c) cs
      else if c = CHR ''_'' then
        (case cs of [] \<Rightarrow> None
                  | d # ds \<Rightarrow> if isdigit d then int_digits acc cs else None)
      else None)"

definition int_magnitude :: "string \<Rightarrow> int option" where
  \<comment> \<open>The digits after the sign: at least one, and a digit first.\<close>
  "int_magnitude s =
     (case s of [] \<Rightarrow> None
              | c # cs \<Rightarrow> if isdigit c then int_digits 0 s else None)"

definition int_of_str :: "string \<Rightarrow> int option" where
  "int_of_str s =
     (case rev (dropWhile int_space (rev (dropWhile int_space s))) of
        [] \<Rightarrow> None
      | c # cs \<Rightarrow>
          if c = CHR ''-'' then map_option uminus (int_magnitude cs)
          else if c = CHR ''+'' then int_magnitude cs
          else int_magnitude (c # cs))"

fun int_py :: "id_input \<Rightarrow> py_exception + int" where
  "int_py (Number n) = Inr n"
| "int_py (Text s) = (case int_of_str s of None \<Rightarrow> Inl ValueError | Some n \<Rightarrow> Inr n)"

section \<open>The task record\<close>

text \<open>\<open>TaskModel\<close> of \<open>3-complete/TaskManager.py\<close>. The date is kept as text.\<close>

record TaskModel =
  task_id :: int
  title :: string
  description :: string
  status :: string
  created_date :: string

text \<open>
  The dictionary of \<open>to_dict\<close>, and one object of the JSON file: the keys \<open>id\<close>,
  \<open>title\<close>, \<open>description\<close>, \<open>status\<close> and \<open>created_date\<close> with their values.
\<close>

record task_dict =
  d_id :: int
  d_title :: string
  d_description :: string
  d_status :: string
  d_created_date :: string

definition TaskModel_init ::
  "string \<Rightarrow> int \<Rightarrow> string \<Rightarrow> string \<Rightarrow> string \<Rightarrow> string option \<Rightarrow> TaskModel" where
  \<comment> \<open>\<open>__init__\<close>; \<open>now\<close> is the clock's reading, already formatted. \<open>created_date or now\<close>
      takes the clock when the argument is \<open>None\<close> or the empty text.\<close>
  "TaskModel_init now i t d s cd =
     \<lparr>task_id = i, title = t, description = d, status = s,
      created_date = (case cd of None \<Rightarrow> now | Some c \<Rightarrow> if c = [] then now else c)\<rparr>"

definition to_dict :: "TaskModel \<Rightarrow> task_dict" where
  "to_dict t =
     \<lparr>d_id = task_id t, d_title = title t, d_description = description t,
      d_status = status t, d_created_date = created_date t\<rparr>"

definition from_dict :: "string \<Rightarrow> task_dict \<Rightarrow> TaskModel" where
  "from_dict now task_dict =
     TaskModel_init now (d_id task_dict) (d_title task_dict) (d_description task_dict)
       (d_status task_dict) (Some (d_created_date task_dict))"

section \<open>The repository over a file\<close>

text \<open>
  \<open>TaskRepository\<close> of \<open>3-complete/TaskManager.py\<close>: the list \<open>self.tasks\<close> and the
  file it is mirrored to. Every exception of the program is a \<open>TaskManagerException\<close>
  with a message. A write is answered by the environment: it succeeds; or \<open>open\<close>
  fails with the system's error text and the file is as it was; or the write fails after
  \<open>open\<close> has truncated the file, which is then no JSON document.
\<close>

datatype error = TaskManagerException string

datatype file_state =
    Missing \<comment> \<open>no file of that name\<close>
  | Unreadable \<comment> \<open>a file on which \<open>json.load\<close> or \<open>from_dict\<close> raises\<close>
  | Stored "task_dict list" \<comment> \<open>a JSON list of task objects\<close>

datatype write_outcome = WriteOk | OpenFails string | WriteFails string

record TaskRepository =
  tasks :: "TaskModel list"
  disk :: file_state

definition load_tasks :: "string \<Rightarrow> TaskRepository \<Rightarrow> TaskRepository" where
  "load_tasks now r =
     (case disk r of
        Missing \<Rightarrow> r
      | Unreadable \<Rightarrow> r\<lparr>tasks := []\<rparr>
      | Stored task_dicts \<Rightarrow> r\<lparr>tasks := map (from_dict now) task_dicts\<rparr>)"

definition TaskRepository_init :: "string \<Rightarrow> file_state \<Rightarrow> TaskRepository" where
  "TaskRepository_init now f = load_tasks now \<lparr>tasks = [], disk = f\<rparr>"

definition save_tasks :: "write_outcome \<Rightarrow> TaskRepository \<Rightarrow> (error + unit) \<times> TaskRepository" where
  "save_tasks w r =
     (case w of
        WriteOk \<Rightarrow> (Inr (), r\<lparr>disk := Stored (map to_dict (tasks r))\<rparr>)
      | OpenFails cause \<Rightarrow>
          (Inl (TaskManagerException (''Failed to save tasks: '' @ cause)), r)
      | WriteFails cause \<Rightarrow>
          (Inl (TaskManagerException (''Failed to save tasks: '' @ cause)),
           r\<lparr>disk := Unreadable\<rparr>))"

definition get_next_id :: "TaskRepository \<Rightarrow> int" where
  \<comment> \<open>1 for the empty list, else \<open>max(...) + 1\<close>; \<open>max\<close> runs over the ids from the left.\<close>
  "get_next_id r =
     (case tasks r of
        [] \<Rightarrow> 1
      | t # ts \<Rightarrow> foldl max (task_id t) (map task_id ts) + 1)"

definition TaskRepository_add_task ::
  "string \<Rightarrow> write_outcome \<Rightarrow> string \<Rightarrow> string \<Rightarrow> TaskRepository
     \<Rightarrow> (error + TaskModel) \<times> TaskRepository" where
  "TaskRepository_add_task now w t d r =
     (let task = TaskModel_init now (get_next_id r) t d ''Pending'' None;
          r1 = r\<lparr>tasks := tasks r @ [task]\<rparr>
      in case save_tasks w r1 of
           (Inl e, r2) \<Rightarrow> (Inl e, r2)
         | (Inr u, r2) \<Rightarrow> (Inr task, r2))"

definition get_all_tasks :: "TaskRepository \<Rightarrow> TaskModel list" where
  "get_all_tasks r = tasks r"

fun find_first :: "int \<Rightarrow> TaskModel list \<Rightarrow> TaskModel option" where
  "find_first i [] = None"
| "find_first i (task # rest) = (if task_id task = i then Some task else find_first i rest)"

definition find_task_by_id :: "int \<Rightarrow> TaskRepository \<Rightarrow> TaskModel option" where
  "find_task_by_id i r = find_first i (tasks r)"

fun replace_first :: "TaskModel \<Rightarrow> TaskModel list \<Rightarrow> TaskModel list option" where
  \<comment> \<open>The loop of \<open>update_task\<close>: \<open>self.tasks[i] = task\<close> at the first task with that id.\<close>
  "replace_first task [] = None"
| "replace_first task (existing_task # rest) =
     (if task_id existing_task = task_id task then Some (task # rest)
      else map_option ((#) existing_task) (replace_first task rest))"

definition TaskRepository_update_task ::
  "write_outcome \<Rightarrow> TaskModel \<Rightarrow> TaskRepository \<Rightarrow> (error + bool) \<times> TaskRepository" where
  "TaskRepository_update_task w task r =
     (case replace_first task (tasks r) of
        None \<Rightarrow> (Inr False, r)
      | Some ts \<Rightarrow>
          (case save_tasks w (r\<lparr>tasks := ts\<rparr>) of
             (Inl e, r2) \<Rightarrow> (Inl e, r2)
           | (Inr u, r2) \<Rightarrow> (Inr True, r2)))"

fun pop_first :: "int \<Rightarrow> TaskModel list \<Rightarrow> (TaskModel \<times> TaskModel list) option" where
  \<comment> \<open>The loop of \<open>delete_task\<close>: \<open>self.tasks.pop(i)\<close> at the first task with that id.\<close>
  "pop_first i [] = None"
| "pop_first i (task # rest) =
     (if task_id task = i then Some (task, rest)
      else map_option (\<lambda>(removed, ts). (removed, task # ts)) (pop_first i rest))"

definition TaskRepository_delete_task ::
  "write_outcome \<Rightarrow> int \<Rightarrow> TaskRepository \<Rightarrow> (error + TaskModel option) \<times> TaskRepository" where
  "TaskRepository_delete_task w i r =
     (case pop_first i (tasks r) of
        None \<Rightarrow> (Inr None, r)
      | Some (removed, ts) \<Rightarrow>
          (case save_tasks w (r\<lparr>tasks := ts\<rparr>) of
             (Inl e, r2) \<Rightarrow> (Inl e, r2)
           | (Inr u, r2) \<Rightarrow> (Inr (Some removed), r2)))"

section \<open>The service\<close>

text \<open>
  \<open>TaskService\<close>. \<open>add_task\<close>, \<open>mark_complete\<close> and \<open>delete_task\<close> have the same text in
  \<open>3-complete/TaskManager.py\<close> and in \<open>4-add-pg-dbms/services/TaskService.py\<close>; here they
  run over the repository above.
\<close>

definition TaskService_add_task ::
  "string \<Rightarrow> write_outcome \<Rightarrow> string \<Rightarrow> string \<Rightarrow> TaskRepository
     \<Rightarrow> (error + TaskModel) \<times> TaskRepository" where
  "TaskService_add_task now w t d r =
     (if t = [] \<or> strip t = [] then
        (Inl (TaskManagerException ''Task title cannot be empty''), r)
      else if length t > 50 then
        (Inl (TaskManagerException ''Task title cannot exceed 50 characters''), r)
      else if d = [] \<or> strip d = [] then
        (Inl (TaskManagerException ''Task description cannot be empty''), r)
      else TaskRepository_add_task now w (strip t) (strip d) r)"

definition list_tasks :: "TaskRepository \<Rightarrow> TaskModel list" where
  "list_tasks r = get_all_tasks r"

fun assign_status :: "int \<Rightarrow> string \<Rightarrow> TaskModel list \<Rightarrow> TaskModel list" where
  \<comment> \<open>\<open>find_task_by_id\<close> hands out the list's own object, so \<open>task.status = s\<close> changes
      the first task with that id inside \<open>self.tasks\<close>.\<close>
  "assign_status i s [] = []"
| "assign_status i s (task # rest) =
     (if task_id task = i then task\<lparr>status := s\<rparr> # rest else task # assign_status i s rest)"

definition TaskService_mark_complete ::
  "write_outcome \<Rightarrow> id_input \<Rightarrow> TaskRepository \<Rightarrow> (error + TaskModel) \<times> TaskRepository" where
  "TaskService_mark_complete w inp r =
     (case int_py inp of
        Inl ValueError \<Rightarrow> (Inl (TaskManagerException ''Task ID must be a number''), r)
      | Inr i \<Rightarrow>
          (case find_task_by_id i r of
             None \<Rightarrow>
               (Inl (TaskManagerException (''Task with ID '' @ str_int i @ '' not found'')), r)
           | Some found \<Rightarrow>
               (let task = found\<lparr>status := ''Completed''\<rparr>;
                    r1 = r\<lparr>tasks := assign_status i ''Completed'' (tasks r)\<rparr>
                in case TaskRepository_update_task w task r1 of
                     (Inl e, r2) \<Rightarrow> (Inl e, r2)
                   | (Inr b, r2) \<Rightarrow> (Inr task, r2))))"

definition TaskService_delete_task ::
  "write_outcome \<Rightarrow> id_input \<Rightarrow> TaskRepository \<Rightarrow> (error + TaskModel) \<times> TaskRepository" where
  "TaskService_delete_task w inp r =
     (case int_py inp of
        Inl ValueError \<Rightarrow> (Inl (TaskManagerException ''Task ID must be a number''), r)
      | Inr i \<Rightarrow>
          (case TaskRepository_delete_task w i r of
             (Inl e, r2) \<Rightarrow> (Inl e, r2)
           | (Inr None, r2) \<Rightarrow>
               (Inl (TaskManagerException (''Task with ID '' @ str_int i @ '' not found'')), r2)
           | (Inr (Some task), r2) \<Rightarrow> (Inr task, r2)))"

definition TaskService_search_tasks :: "string \<Rightarrow> TaskRepository \<Rightarrow> TaskModel list" where
  \<comment> \<open>\<open>3-complete\<close>: the keyword is lowered and stripped, then matched in the service.\<close>
  "TaskService_search_tasks keyword r =
     (if keyword = [] \<or> strip keyword = [] then []
      else (let keyword1 = strip (lower keyword)
            in filter (\<lambda>task. str_contains (lower (title task)) keyword1
                              \<or> str_contains (lower (description task)) keyword1)
                 (get_all_tasks r)))"

definition TaskService_search_tasks_pg ::
  "(string \<Rightarrow> 'db \<Rightarrow> (error + 'task list) \<times> 'db) \<Rightarrow> string \<Rightarrow> 'db
     \<Rightarrow> (error + 'task list) \<times> 'db" where
  \<comment> \<open>\<open>4-add-pg-dbms\<close>: the stripped keyword goes to \<open>repository.search_tasks\<close>, which
      queries the database; the repository's method is the parameter \<open>repository_search_tasks\<close>.\<close>
  "TaskService_search_tasks_pg repository_search_tasks keyword db =
     (if keyword = [] \<or> strip keyword = [] then (Inr [], db)
      else repository_search_tasks (strip keyword) db)"

section \<open>The task manager over a list of dictionaries\<close>



section \<open>The vocabulary of the specification\<close>

text \<open>
  The program has one exception class; the three kinds of error of the specification are
  told apart by the message a \<open>TaskManagerException\<close> carries.
\<close>

definition ValidationError :: "error \<Rightarrow> bool" where
  "ValidationError e \<longleftrightarrow>
     e = TaskManagerException ''Task title cannot be empty''
     \<or> e = TaskManagerException ''Task title cannot exceed 50 characters''
     \<or> e = TaskManagerException ''Task description cannot be empty''
     \<or> e = TaskManagerException ''Task ID must be a number''"

definition NotFoundError :: "int \<Rightarrow> error \<Rightarrow> bool" where
  "NotFoundError i e \<longleftrightarrow>
     e = TaskManagerException (''Task with ID '' @ str_int i @ '' not found'')"

text \<open>No two tasks of the store share an id.\<close>

definition unique_ids :: "TaskRepository \<Rightarrow> bool" where
  "unique_ids r \<longleftrightarrow> distinct (map task_id (tasks r))"

text \<open>
  The states a store passes through: it starts over a missing or unreadable file, runs
  the operations of the repository and of the service with any arguments and any answer
  of the environment to a write, and may be started again over the file it left.
\<close>

inductive reachable :: "TaskRepository \<Rightarrow> bool" where
  no_file: "reachable (TaskRepository_init now Missing)"
| bad_file: "reachable (TaskRepository_init now Unreadable)"
| restart: "reachable r \<Longrightarrow> reachable (TaskRepository_init now (disk r))"
| add: "reachable r \<Longrightarrow> reachable (snd (TaskRepository_add_task now w t d r))"
| update: "reachable r \<Longrightarrow> reachable (snd (TaskRepository_update_task w task r))"
| delete: "reachable r \<Longrightarrow> reachable (snd (TaskRepository_delete_task w i r))"
| service_add: "reachable r \<Longrightarrow> reachable (snd (TaskService_add_task now w t d r))"
| service_complete: "reachable r \<Longrightarrow> reachable (snd (TaskService_mark_complete w inp r))"
| service_delete: "reachable r \<Longrightarrow> reachable (snd (TaskService_delete_task w inp r))"



text \<open>
  Search as the specification words it: the keyword is a substring of the title or of the
  description up to letter case, and the status is the filter's when there is one; the
  records come in the order of the store.
\<close>

definition equal_ignoring_case :: "string \<Rightarrow> string \<Rightarrow> bool" where
  "equal_ignoring_case a b \<longleftrightarrow> lower a = lower b"

definition contains_ignoring_case :: "string \<Rightarrow> string \<Rightarrow> bool" where
  "contains_ignoring_case s k \<longleftrightarrow>
     (\<exists>before part after. s = before @ part @ after \<and> equal_ignoring_case part k)"


text \<open>
  The ids of the tasks in memory are distinct, and so are the ids of the objects of the
  file when it holds a list of them.
\<close>

definition store_ok :: "TaskRepository \<Rightarrow> bool" where
  "store_ok r \<longleftrightarrow> unique_ids r \<and> (case disk r of Stored ds \<Rightarrow> distinct (map d_id ds) | _ \<Rightarrow> True)"

section \<open>Lemmas on text and on the store\<close>

lemma char_of_eq_iff: "char_of (n::nat) = c \<longleftrightarrow> n mod 256 = of_char c"
  by (metis char_of_char of_char_of)

lemma eq_char_of_iff: "c = char_of (n::nat) \<longleftrightarrow> of_char c = n mod 256"
  by (metis char_of_char of_char_of)

lemma foldl_max_Max: "foldl max (a::int) xs = Max (insert a (set xs))"
proof (induction xs arbitrary: a)
  case Nil
  then show ?case by simp
next
  case (Cons x xs)
  have "Max (insert (max a x) (set xs)) = Max (insert a (insert x (set xs)))"
    by (cases "set xs = {}") (simp_all add: max.assoc)
  with Cons show ?case by simp
qed

lemma get_next_id_Max:
  "get_next_id r = (if tasks r = [] then 0 else Max (task_id ` set (tasks r))) + 1"
  by (cases "tasks r") (simp_all add: get_next_id_def foldl_max_Max)

lemma get_next_id_greater: "x \<in> set (tasks r) \<Longrightarrow> task_id x < get_next_id r"
proof -
  assume x: "x \<in> set (tasks r)"
  then have ne: "tasks r \<noteq> []" by auto
  have "task_id x \<le> Max (task_id ` set (tasks r))"
    using x by (intro Max_ge) auto
  with ne show ?thesis by (simp add: get_next_id_Max)
qed

lemma find_first_None: "find_first i ts = None \<longleftrightarrow> i \<notin> task_id ` set ts"
  by (induction ts) auto

lemma find_first_append:
  "find_first i (ts @ us) = (case find_first i ts of None \<Rightarrow> find_first i us | Some t \<Rightarrow> Some t)"
  by (induction ts) auto

lemma find_first_fresh:
  "\<forall>x\<in>set ts. task_id x < task_id t \<Longrightarrow> find_first (task_id t) (ts @ [t]) = Some t"
proof -
  assume "\<forall>x\<in>set ts. task_id x < task_id t"
  then have "task_id t \<notin> task_id ` set ts" by auto
  then have "find_first (task_id t) ts = None" by (simp add: find_first_None)
  then show ?thesis by (simp add: find_first_append)
qed

lemma strip_Nil_iff: "strip s = [] \<longleftrightarrow> (\<forall>c\<in>set s. isspace c)"
proof
  assume "strip s = []"
  then have all: "\<forall>x\<in>set (dropWhile isspace s). isspace x"
    by (simp add: strip_def dropWhile_eq_Nil_conv)
  have "dropWhile isspace s = []"
  proof (rule ccontr)
    assume ne: "dropWhile isspace s \<noteq> []"
    then have "\<not> isspace (hd (dropWhile isspace s))" by (rule hd_dropWhile)
    moreover have "hd (dropWhile isspace s) \<in> set (dropWhile isspace s)" using ne by simp
    ultimately show False using all by blast
  qed
  then show "\<forall>c\<in>set s. isspace c" by (simp add: dropWhile_eq_Nil_conv)
next
  assume "\<forall>c\<in>set s. isspace c"
  then have dw: "dropWhile isspace s = []" by (simp add: dropWhile_eq_Nil_conv)
  show "strip s = []" by (simp only: strip_def dw rev.simps dropWhile.simps)
qed

lemma repository_add_task_ok:
  "TaskRepository_add_task now WriteOk t d r =
     (Inr (TaskModel_init now (get_next_id r) t d ''Pending'' None),
      \<lparr>tasks = tasks r @ [TaskModel_init now (get_next_id r) t d ''Pending'' None],
       disk = Stored (map to_dict (tasks r @ [TaskModel_init now (get_next_id r) t d ''Pending'' None]))\<rparr>)"
  by (simp add: TaskRepository_add_task_def save_tasks_def Let_def)

lemma repository_add_task_returns:
  assumes "TaskRepository_add_task now w t d r = (Inr task, r')"
  shows "w = WriteOk" and "task = TaskModel_init now (get_next_id r) t d ''Pending'' None" and "tasks r' = tasks r @ [task]"
  using assms by (auto simp: TaskRepository_add_task_def save_tasks_def Let_def split: write_outcome.splits)

lemma tasks_save_tasks: "tasks (snd (save_tasks w r)) = tasks r"
  by (simp add: save_tasks_def split: write_outcome.splits)

lemma disk_save_tasks:
  "disk (snd (save_tasks w r)) = Stored (map to_dict (tasks r))
   \<or> disk (snd (save_tasks w r)) = disk r
   \<or> disk (snd (save_tasks w r)) = Unreadable"
  by (simp add: save_tasks_def split: write_outcome.splits)

lemma ids_to_dict: "d_id \<circ> to_dict = task_id"
  by (rule ext) (simp add: to_dict_def)

lemma ids_from_dict: "task_id \<circ> from_dict now = d_id"
  by (rule ext) (simp add: from_dict_def TaskModel_init_def)

lemma ids_replace_first: "replace_first task ts = Some ts' \<Longrightarrow> map task_id ts' = map task_id ts"
  by (induction ts arbitrary: ts') (auto split: if_splits)

lemma ids_assign_status: "map task_id (assign_status i s ts) = map task_id ts"
  by (induction ts) auto

lemma ids_pop_first:
  "pop_first i ts = Some (removed, ts') \<Longrightarrow> distinct (map task_id ts) \<Longrightarrow> distinct (map task_id ts')"
proof (induction ts arbitrary: ts')
  case Nil
  then show ?case by simp
next
  case (Cons a ts)
  show ?case
  proof (cases "task_id a = i")
    case True
    with Cons.prems show ?thesis by simp
  next
    case False
    with Cons.prems obtain us where us: "pop_first i ts = Some (removed, us)" and ts': "ts' = a # us"
      by auto
    have sub: "set us \<subseteq> set ts"
      using us by (induction ts arbitrary: us) (auto split: if_splits)
    from Cons.IH [OF us] Cons.prems(2) have "distinct (map task_id us)" by simp
    moreover have "task_id a \<notin> task_id ` set us" using Cons.prems(2) sub by auto
    ultimately show ?thesis using ts' by simp
  qed
qed

lemma store_ok_save:
  assumes "unique_ids r'" and "store_ok r" and "disk r' = disk r"
  shows "store_ok (snd (save_tasks w r'))"
  using assms
  by (cases w) (auto simp: store_ok_def unique_ids_def save_tasks_def ids_to_dict split: file_state.splits)

lemma store_ok_init:
  "(case f of Stored ds \<Rightarrow> distinct (map d_id ds) | _ \<Rightarrow> True) \<Longrightarrow> store_ok (TaskRepository_init now f)"
  by (cases f) (auto simp: store_ok_def unique_ids_def TaskRepository_init_def load_tasks_def ids_from_dict)

lemma distinct_add:
  "distinct (map task_id (tasks r)) \<Longrightarrow> task_id t = get_next_id r \<Longrightarrow> distinct (map task_id (tasks r @ [t]))"
  using get_next_id_greater [of _ r] by fastforce

lemma store_ok_add: "store_ok r \<Longrightarrow> store_ok (snd (TaskRepository_add_task now w t d r))"
proof -
  assume ok: "store_ok r"
  let ?task = "TaskModel_init now (get_next_id r) t d ''Pending'' None"
  let ?r1 = "r\<lparr>tasks := tasks r @ [?task]\<rparr>"
  have "unique_ids ?r1"
    using ok distinct_add [of r ?task] by (simp add: store_ok_def unique_ids_def TaskModel_init_def)
  then have "store_ok (snd (save_tasks w ?r1))" using ok by (rule store_ok_save) simp
  moreover have "snd (TaskRepository_add_task now w t d r) = snd (save_tasks w ?r1)"
    by (simp add: TaskRepository_add_task_def Let_def split: prod.splits sum.splits)
  ultimately show ?thesis by simp
qed

lemma store_ok_update: "store_ok r \<Longrightarrow> store_ok (snd (TaskRepository_update_task w task r))"
proof (cases "replace_first task (tasks r)")
  case None
  assume "store_ok r"
  with None show ?thesis by (simp add: TaskRepository_update_task_def)
next
  case (Some ts)
  assume ok: "store_ok r"
  have "unique_ids (r\<lparr>tasks := ts\<rparr>)"
    using ok ids_replace_first [OF Some] by (simp add: store_ok_def unique_ids_def)
  then have "store_ok (snd (save_tasks w (r\<lparr>tasks := ts\<rparr>)))" using ok by (rule store_ok_save) simp
  moreover have "snd (TaskRepository_update_task w task r) = snd (save_tasks w (r\<lparr>tasks := ts\<rparr>))"
    using Some by (simp add: TaskRepository_update_task_def split: prod.splits sum.splits)
  ultimately show ?thesis by simp
qed

lemma store_ok_delete: "store_ok r \<Longrightarrow> store_ok (snd (TaskRepository_delete_task w i r))"
proof (cases "pop_first i (tasks r)")
  case None
  assume "store_ok r"
  with None show ?thesis by (simp add: TaskRepository_delete_task_def)
next
  case (Some p)
  assume ok: "store_ok r"
  obtain removed ts where p: "p = (removed, ts)" by (cases p)
  have "unique_ids (r\<lparr>tasks := ts\<rparr>)"
    using ok ids_pop_first [OF Some [unfolded p]] by (simp add: store_ok_def unique_ids_def)
  then have "store_ok (snd (save_tasks w (r\<lparr>tasks := ts\<rparr>)))" using ok by (rule store_ok_save) simp
  moreover have "snd (TaskRepository_delete_task w i r) = snd (save_tasks w (r\<lparr>tasks := ts\<rparr>))"
    using Some p by (simp add: TaskRepository_delete_task_def split: prod.splits sum.splits)
  ultimately show ?thesis by simp
qed

lemma store_ok_service_add: "store_ok r \<Longrightarrow> store_ok (snd (TaskService_add_task now w t d r))"
  by (simp add: TaskService_add_task_def store_ok_add)

lemma store_ok_assign:
  "store_ok r \<Longrightarrow> store_ok (r\<lparr>tasks := assign_status i s (tasks r)\<rparr>)"
  by (simp add: store_ok_def unique_ids_def ids_assign_status)

lemma store_ok_service_complete:
  "store_ok r \<Longrightarrow> store_ok (snd (TaskService_mark_complete w inp r))"
proof -
  assume ok: "store_ok r"
  show ?thesis
  proof (cases "int_py inp")
    case (Inl e)
    with ok show ?thesis by (cases e) (simp add: TaskService_mark_complete_def)
  next
    case (Inr i)
    show ?thesis
    proof (cases "find_task_by_id i r")
      case None
      with Inr ok show ?thesis by (simp add: TaskService_mark_complete_def)
    next
      case (Some found)
      let ?r1 = "r\<lparr>tasks := assign_status i ''Completed'' (tasks r)\<rparr>"
      have "store_ok (snd (TaskRepository_update_task w (found\<lparr>status := ''Completed''\<rparr>) ?r1))"
        using ok by (intro store_ok_update store_ok_assign)
      moreover have "snd (TaskService_mark_complete w inp r)
            = snd (TaskRepository_update_task w (found\<lparr>status := ''Completed''\<rparr>) ?r1)"
        using Inr Some by (simp add: TaskService_mark_complete_def Let_def split: prod.splits sum.splits)
      ultimately show ?thesis by simp
    qed
  qed
qed

lemma store_ok_service_delete:
  "store_ok r \<Longrightarrow> store_ok (snd (TaskService_delete_task w inp r))"
proof -
  assume ok: "store_ok r"
  show ?thesis
  proof (cases "int_py inp")
    case (Inl e)
    with ok show ?thesis by (cases e) (simp add: TaskService_delete_task_def)
  next
    case (Inr i)
    have "snd (TaskService_delete_task w inp r) = snd (TaskRepository_delete_task w i r)"
      using Inr by (simp add: TaskService_delete_task_def split: prod.splits sum.splits option.splits)
    with ok show ?thesis by (simp add: store_ok_delete)
  qed
qed

lemma reachable_store_ok: "reachable r \<Longrightarrow> store_ok r"
proof (induction rule: reachable.induct)
  case (restart r now)
  then show ?case by (intro store_ok_init) (simp add: store_ok_def)
qed (simp_all add: store_ok_init store_ok_add store_ok_update store_ok_delete
       store_ok_service_add store_ok_service_complete store_ok_service_delete)

lemma unique_ids_count:
  "unique_ids r \<longleftrightarrow> (\<forall>i. length (filter (\<lambda>t. task_id t = i) (tasks r)) \<le> 1)"
proof -
  have "distinct (map task_id ts) \<longleftrightarrow> (\<forall>i. length (filter (\<lambda>t. task_id t = i) ts) \<le> 1)" for ts :: "TaskModel list"
  proof (induction ts)
    case Nil
    then show ?case by simp
  next
    case (Cons a ts)
    have none: "task_id a \<notin> task_id ` set ts \<longleftrightarrow> filter (\<lambda>t. task_id t = task_id a) ts = []"
      unfolding filter_empty_conv image_iff by metis
    show ?case
    proof
      assume d: "distinct (map task_id (a # ts))"
      then have "\<forall>i. length (filter (\<lambda>t. task_id t = i) ts) \<le> 1" using Cons by simp
      moreover have "filter (\<lambda>t. task_id t = task_id a) ts = []" using d none by simp
      ultimately show "\<forall>i. length (filter (\<lambda>t. task_id t = i) (a # ts)) \<le> 1" by simp
    next
      assume c: "\<forall>i. length (filter (\<lambda>t. task_id t = i) (a # ts)) \<le> 1"
      then have "length (filter (\<lambda>t. task_id t = task_id a) (a # ts)) \<le> 1" by blast
      then have e: "filter (\<lambda>t. task_id t = task_id a) ts = []" by simp
      have "\<forall>i. length (filter (\<lambda>t. task_id t = i) ts) \<le> 1"
      proof
        fix i
        from c have "length (filter (\<lambda>t. task_id t = i) (a # ts)) \<le> 1" by blast
        then show "length (filter (\<lambda>t. task_id t = i) ts) \<le> 1" by (simp split: if_splits)
      qed
      then have "distinct (map task_id ts)" using Cons by simp
      with e none show "distinct (map task_id (a # ts))" by simp
    qed
  qed
  then show ?thesis by (simp add: unique_ids_def)
qed

section \<open>Adding a task\<close>

text \<open>
  C1. For every store and every title and description that pass the validation of the
  service, \<open>add_task\<close> gives the new task the id (largest id of the store, or 0 for the
  empty store) + 1; that id is greater than every id already in the store, and
  \<open>find_task_by_id\<close> with that id then returns the task that was returned. The only
  failure left is a write the environment refuses.
\<close>

theorem add_task_assigns_next_id:
  assumes "\<not> (\<forall>c\<in>set t. isspace c)" and "length t \<le> 50" and "\<not> (\<forall>c\<in>set d. isspace c)"
  shows "case TaskService_add_task now w t d r of
           (Inr task, r') \<Rightarrow>
              task_id task = (if tasks r = [] then 0 else Max (task_id ` set (tasks r))) + 1
              \<and> (\<forall>x\<in>set (tasks r). task_id x < task_id task)
              \<and> find_task_by_id (task_id task) r' = Some task
         | (Inl e, r') \<Rightarrow> w \<noteq> WriteOk"
proof -
  from assms have valid: "t \<noteq> []" "strip t \<noteq> []" "d \<noteq> []" "strip d \<noteq> []"
    by (auto simp: strip_Nil_iff)
  then have svc: "TaskService_add_task now w t d r = TaskRepository_add_task now w (strip t) (strip d) r"
    using assms(2) by (simp add: TaskService_add_task_def)
  obtain res r' where res: "TaskRepository_add_task now w (strip t) (strip d) r = (res, r')"
    by (cases "TaskRepository_add_task now w (strip t) (strip d) r")
  show ?thesis
  proof (cases res)
    case (Inl e)
    with res have "w \<noteq> WriteOk" by (auto simp: repository_add_task_ok)
    with Inl res svc show ?thesis by simp
  next
    case (Inr task)
    note ret = repository_add_task_returns [OF res [unfolded Inr]]
    have id: "task_id task = get_next_id r" using ret(2) by (simp add: TaskModel_init_def)
    have gt: "\<forall>x\<in>set (tasks r). task_id x < task_id task"
      using id get_next_id_greater by simp
    have "find_task_by_id (task_id task) r' = Some task"
      using gt ret(3) by (simp add: find_task_by_id_def find_first_fresh)
    with id gt Inr res svc show ?thesis by (simp add: get_next_id_Max)
  qed
qed

theorem add_task_assigns_next_id_witness:
  "\<not> (\<forall>c\<in>set ''Buy milk''. isspace c) \<and> length ''Buy milk'' \<le> 50
   \<and> \<not> (\<forall>c\<in>set ''Get 2% milk''. isspace c)
   \<and> (case TaskService_add_task ''2025-01-01 10:00:00'' WriteOk ''Buy milk'' ''Get 2% milk''
              \<lparr>tasks = [], disk = Missing\<rparr> of
         (Inr task, r') \<Rightarrow>
            task_id task = (if tasks \<lparr>tasks = [], disk = Missing\<rparr> = [] then 0 else Max (task_id ` set (tasks \<lparr>tasks = [], disk = Missing\<rparr>))) + 1
            \<and> (\<forall>x\<in>set (tasks \<lparr>tasks = [], disk = Missing\<rparr>). task_id x < task_id task)
            \<and> find_task_by_id (task_id task) r' = Some task
       | (Inl e, r') \<Rightarrow> WriteOk \<noteq> WriteOk)"
proof -
  have h1: "\<not> (\<forall>c\<in>set ''Buy milk''. isspace c)" by (simp add: isspace_def)
  have h2: "length ''Buy milk'' \<le> 50" by simp
  have h3: "\<not> (\<forall>c\<in>set ''Get 2% milk''. isspace c)" by (simp add: isspace_def)
  show ?thesis
    using h1 h2 h3 add_task_assigns_next_id [OF h1 h2 h3, where now = "''2025-01-01 10:00:00''" and w = WriteOk and r = "\<lparr>tasks = [], disk = Missing\<rparr>"]
    by blast
qed

lemma repository_add_task_error:
  "fst (TaskRepository_add_task now w t d r) = Inl e \<Longrightarrow> \<not> ValidationError e"
  by (cases w) (auto simp: TaskRepository_add_task_def save_tasks_def Let_def ValidationError_def)

lemma repository_add_task_fields:
  "fst (TaskRepository_add_task now w t d r) = Inr task \<Longrightarrow> title task = t \<and> description task = d"
  by (cases w) (auto simp: TaskRepository_add_task_def save_tasks_def Let_def TaskModel_init_def)

text \<open>
  C3. \<open>add_task\<close> of the service fails with a validation error exactly when the title is
  empty or all whitespace, the title is longer than 50 characters, or the description is
  empty or all whitespace. Such a failure leaves the store, in memory and on file, as it
  was. A task that is returned was added by the repository with both texts stripped.
\<close>

theorem add_task_validation:
  "((\<exists>e. fst (TaskService_add_task now w t d r) = Inl e \<and> ValidationError e)
      \<longleftrightarrow> (\<forall>c\<in>set t. isspace c) \<or> length t > 50 \<or> (\<forall>c\<in>set d. isspace c))
   \<and> (\<forall>e. fst (TaskService_add_task now w t d r) = Inl e \<and> ValidationError e
          \<longrightarrow> snd (TaskService_add_task now w t d r) = r)
   \<and> (\<forall>task. fst (TaskService_add_task now w t d r) = Inr task
          \<longrightarrow> TaskService_add_task now w t d r
                = TaskRepository_add_task now w (strip t) (strip d) r
              \<and> title task = strip t \<and> description task = strip d)"
proof (cases "(\<forall>c\<in>set t. isspace c) \<or> length t > 50 \<or> (\<forall>c\<in>set d. isspace c)")
  case True
  then have "\<exists>e. TaskService_add_task now w t d r = (Inl e, r) \<and> ValidationError e"
    by (auto simp: TaskService_add_task_def ValidationError_def strip_Nil_iff)
  with True show ?thesis by auto
next
  case False
  then have "t \<noteq> []" "strip t \<noteq> []" "\<not> length t > 50" "d \<noteq> []" "strip d \<noteq> []"
    by (auto simp: strip_Nil_iff)
  then have svc: "TaskService_add_task now w t d r
        = TaskRepository_add_task now w (strip t) (strip d) r"
    by (simp add: TaskService_add_task_def)
  show ?thesis
    using False repository_add_task_error [of now w "strip t" "strip d" r]
      repository_add_task_fields [of now w "strip t" "strip d" r]
    unfolding svc by blast
qed

theorem add_task_validation_witness:
  "((\<exists>e. fst (TaskService_add_task [] WriteOk '' '' ''x'' \<lparr>tasks = [], disk = Missing\<rparr>) = Inl e
         \<and> ValidationError e)
      \<longleftrightarrow> (\<forall>c\<in>set '' ''. isspace c) \<or> length '' '' > 50 \<or> (\<forall>c\<in>set ''x''. isspace c))
   \<and> list_all isspace '' ''
   \<and> fst (TaskService_add_task [] WriteOk '' '' ''x'' \<lparr>tasks = [], disk = Missing\<rparr>)
       = Inl (TaskManagerException ''Task title cannot be empty'')
   \<and> ValidationError (TaskManagerException ''Task title cannot be empty'')
   \<and> snd (TaskService_add_task [] WriteOk '' '' ''x'' \<lparr>tasks = [], disk = Missing\<rparr>)
       = \<lparr>tasks = [], disk = Missing\<rparr>
   \<and> fst (TaskService_add_task [] WriteOk '' y '' ''x'' \<lparr>tasks = [], disk = Missing\<rparr>)
       = Inr \<lparr>task_id = 1, title = ''y'', description = ''x'', status = ''Pending'', created_date = []\<rparr>
   \<and> TaskService_add_task [] WriteOk '' y '' ''x'' \<lparr>tasks = [], disk = Missing\<rparr>
       = TaskRepository_add_task [] WriteOk (strip '' y '') (strip ''x'') \<lparr>tasks = [], disk = Missing\<rparr>"
proof -
  have ws: "\<forall>c\<in>set '' ''. isspace c" by (simp add: isspace_def)
  have e: "fst (TaskService_add_task [] WriteOk '' '' ''x'' \<lparr>tasks = [], disk = Missing\<rparr>)
       = Inl (TaskManagerException ''Task title cannot be empty'')"
    by (simp add: TaskService_add_task_def strip_def isspace_def)
  have v: "ValidationError (TaskManagerException ''Task title cannot be empty'')"
    by (simp add: ValidationError_def)
  have ok: "fst (TaskService_add_task [] WriteOk '' y '' ''x'' \<lparr>tasks = [], disk = Missing\<rparr>)
       = Inr \<lparr>task_id = 1, title = ''y'', description = ''x'', status = ''Pending'', created_date = []\<rparr>"
    by (simp add: TaskService_add_task_def strip_def isspace_def TaskRepository_add_task_def
        get_next_id_def TaskModel_init_def save_tasks_def Let_def)
  show ?thesis
    using ws e v ok list_all_iff [of isspace "'' ''"]
      add_task_validation [of "[]" WriteOk "'' ''" "''x''" "\<lparr>tasks = [], disk = Missing\<rparr>"]
      add_task_validation [of "[]" WriteOk "'' y ''" "''x''" "\<lparr>tasks = [], disk = Missing\<rparr>"]
    by blast
qed

text \<open>
  C9. The limit of 50 characters applies to the title as received: a title longer than 50
  characters fails with a validation error, also when its stripped form is shorter.
\<close>

theorem add_task_length_before_strip:
  "length t > 50 \<Longrightarrow>
     \<exists>e. TaskService_add_task now w t d r = (Inl e, r) \<and> ValidationError e"
  by (simp add: TaskService_add_task_def ValidationError_def)

theorem add_task_length_before_strip_witness:
  "length (''Water the plants on the balcony before the weekend'' @ ''  '') > 50
   \<and> length (strip (''Water the plants on the balcony before the weekend'' @ ''  '')) \<le> 50
   \<and> (\<exists>e. TaskService_add_task [] WriteOk
            (''Water the plants on the balcony before the weekend'' @ ''  '') ''x''
            \<lparr>tasks = [], disk = Missing\<rparr> = (Inl e, \<lparr>tasks = [], disk = Missing\<rparr>)
          \<and> ValidationError e)"
proof -
  have h: "length (''Water the plants on the balcony before the weekend'' @ ''  '') > 50" by simp
  have s: "length (strip (''Water the plants on the balcony before the weekend'' @ ''  '')) \<le> 50"
    by (simp add: strip_def isspace_def)
  show ?thesis
    using h s add_task_length_before_strip [OF h, of "[]" WriteOk "''x''" "\<lparr>tasks = [], disk = Missing\<rparr>"]
    by blast
qed

section \<open>Identifiers\<close>

lemma find_first_pop_first: "find_first i ts = None \<Longrightarrow> pop_first i ts = None"
  by (induction ts) (auto split: if_splits)

text \<open>
  C4, as stated, fails: the texts \<open>0\<close> and \<open>-5\<close> convert to integers that are not
  positive, and the service answers that no such task is found, not that the input is
  invalid.
\<close>

theorem id_coercion_counterexample:
  "int_py (Text ''0'') = Inr 0
   \<and> TaskService_mark_complete WriteOk (Text ''0'') \<lparr>tasks = [], disk = Missing\<rparr>
       = (Inl (TaskManagerException ''Task with ID 0 not found''), \<lparr>tasks = [], disk = Missing\<rparr>)
   \<and> int_py (Text ''-5'') = Inr (- 5)
   \<and> TaskService_delete_task WriteOk (Text ''-5'') \<lparr>tasks = [], disk = Missing\<rparr>
       = (Inl (TaskManagerException ''Task with ID -5 not found''), \<lparr>tasks = [], disk = Missing\<rparr>)
   \<and> \<not> ValidationError (TaskManagerException ''Task with ID 0 not found'')
   \<and> \<not> ValidationError (TaskManagerException ''Task with ID -5 not found'')"
  by (simp add: int_of_str_def int_space_def int_magnitude_def isdigit_def digit_value_def
      TaskService_mark_complete_def TaskService_delete_task_def TaskRepository_delete_task_def
      find_task_by_id_def str_int_def str_nat.simps char_of_eq_iff eq_char_of_iff
      ValidationError_def)

text \<open>
  C4, amended. \<open>mark_complete\<close> and \<open>delete_task\<close> fail with a validation error
  whenever \<open>int\<close> refuses the input, and fail with a not-found error carrying the
  converted id whenever that id, of any sign, belongs to no task of the store; the store is
  unchanged in both cases.
\<close>

theorem id_coercion_errors:
  "(int_py inp = Inl ValueError \<longrightarrow>
      (\<exists>e. TaskService_mark_complete w inp r = (Inl e, r) \<and> ValidationError e)
      \<and> (\<exists>e. TaskService_delete_task w inp r = (Inl e, r) \<and> ValidationError e))
   \<and> (\<forall>i. int_py inp = Inr i \<and> find_task_by_id i r = None \<longrightarrow>
      (\<exists>e. TaskService_mark_complete w inp r = (Inl e, r) \<and> NotFoundError i e)
      \<and> (\<exists>e. TaskService_delete_task w inp r = (Inl e, r) \<and> NotFoundError i e))"
  by (auto simp: TaskService_mark_complete_def TaskService_delete_task_def
      TaskRepository_delete_task_def find_task_by_id_def find_first_pop_first
      ValidationError_def NotFoundError_def)

theorem id_coercion_errors_witness:
  "int_py (Text ''abc'') = Inl ValueError
   \<and> (\<exists>e. TaskService_mark_complete WriteOk (Text ''abc'') \<lparr>tasks = [], disk = Missing\<rparr>
            = (Inl e, \<lparr>tasks = [], disk = Missing\<rparr>) \<and> ValidationError e)
   \<and> (\<exists>e. TaskService_delete_task WriteOk (Text ''abc'') \<lparr>tasks = [], disk = Missing\<rparr>
            = (Inl e, \<lparr>tasks = [], disk = Missing\<rparr>) \<and> ValidationError e)
   \<and> int_py (Number 999999) = Inr 999999
   \<and> find_task_by_id 999999 \<lparr>tasks = [], disk = Missing\<rparr> = None
   \<and> (\<exists>e. TaskService_mark_complete WriteOk (Number 999999) \<lparr>tasks = [], disk = Missing\<rparr>
            = (Inl e, \<lparr>tasks = [], disk = Missing\<rparr>) \<and> NotFoundError 999999 e)
   \<and> (\<exists>e. TaskService_delete_task WriteOk (Number 999999) \<lparr>tasks = [], disk = Missing\<rparr>
            = (Inl e, \<lparr>tasks = [], disk = Missing\<rparr>) \<and> NotFoundError 999999 e)"
proof -
  have a: "int_py (Text ''abc'') = Inl ValueError"
    by (simp add: int_of_str_def int_space_def int_magnitude_def isdigit_def)
  have b: "int_py (Number 999999) = Inr 999999" by simp
  have c: "find_task_by_id 999999 \<lparr>tasks = [], disk = Missing\<rparr> = None"
    by (simp add: find_task_by_id_def)
  show ?thesis
    using a b c
      id_coercion_errors [of "Text ''abc''" WriteOk "\<lparr>tasks = [], disk = Missing\<rparr>"]
      id_coercion_errors [of "Number 999999" WriteOk "\<lparr>tasks = [], disk = Missing\<rparr>"]
    by blast
qed



section \<open>Distinct ids\<close>

lemma unique_ids_add: "unique_ids r \<Longrightarrow> unique_ids (snd (TaskRepository_add_task now w t d r))"
proof -
  assume u: "unique_ids r"
  let ?task = "TaskModel_init now (get_next_id r) t d ''Pending'' None"
  have "tasks (snd (TaskRepository_add_task now w t d r)) = tasks r @ [?task]"
    by (cases w) (simp_all add: TaskRepository_add_task_def save_tasks_def Let_def)
  moreover have "distinct (map task_id (tasks r @ [?task]))"
    using u by (intro distinct_add) (simp_all add: unique_ids_def TaskModel_init_def)
  ultimately show ?thesis by (simp add: unique_ids_def)
qed

lemma unique_ids_update: "unique_ids r \<Longrightarrow> unique_ids (snd (TaskRepository_update_task w task r))"
proof (cases "replace_first task (tasks r)")
  case None
  assume "unique_ids r"
  with None show ?thesis by (simp add: TaskRepository_update_task_def)
next
  case (Some ts)
  assume u: "unique_ids r"
  have "tasks (snd (TaskRepository_update_task w task r)) = ts"
    using Some by (cases w) (simp_all add: TaskRepository_update_task_def save_tasks_def)
  with u ids_replace_first [OF Some] show ?thesis by (simp add: unique_ids_def)
qed

lemma unique_ids_delete: "unique_ids r \<Longrightarrow> unique_ids (snd (TaskRepository_delete_task w i r))"
proof (cases "pop_first i (tasks r)")
  case None
  assume "unique_ids r"
  with None show ?thesis by (simp add: TaskRepository_delete_task_def)
next
  case (Some p)
  assume u: "unique_ids r"
  obtain removed ts where p: "p = (removed, ts)" by (cases p)
  have "tasks (snd (TaskRepository_delete_task w i r)) = ts"
    using Some p by (cases w) (simp_all add: TaskRepository_delete_task_def save_tasks_def)
  with u ids_pop_first [OF Some [unfolded p]] show ?thesis by (simp add: unique_ids_def)
qed

text \<open>
  C2. In every reachable state of the store no id belongs to more than one task, and
  \<open>add_task\<close>, \<open>update_task\<close> and \<open>delete_task\<close> of the repository keep the ids
  distinct, whatever the write does.
\<close>

theorem unique_ids_invariant:
  "(reachable r \<longrightarrow> (\<forall>i. length (filter (\<lambda>t. task_id t = i) (tasks r)) \<le> 1))
   \<and> (unique_ids r \<longrightarrow>
        unique_ids (snd (TaskRepository_add_task now w t d r))
        \<and> unique_ids (snd (TaskRepository_update_task w task r))
        \<and> unique_ids (snd (TaskRepository_delete_task w i r)))"
proof -
  have "reachable r \<longrightarrow> (\<forall>i. length (filter (\<lambda>t. task_id t = i) (tasks r)) \<le> 1)"
    using reachable_store_ok [of r] unique_ids_count [of r] by (simp add: store_ok_def)
  then show ?thesis
    using unique_ids_add unique_ids_update unique_ids_delete by blast
qed

theorem unique_ids_invariant_witness:
  "reachable (snd (TaskRepository_add_task ''2025-01-01 10:00:00'' WriteOk ''a'' ''b''
                     (TaskRepository_init [] Missing)))
   \<and> unique_ids (snd (TaskRepository_add_task ''2025-01-01 10:00:00'' WriteOk ''a'' ''b''
                     (TaskRepository_init [] Missing)))
   \<and> (\<forall>i. length (filter (\<lambda>t. task_id t = i)
         (tasks (snd (TaskRepository_add_task ''2025-01-01 10:00:00'' WriteOk ''a'' ''b''
                     (TaskRepository_init [] Missing))))) \<le> 1)
   \<and> unique_ids (snd (TaskRepository_add_task [] WriteOk ''c'' ''d''
         (snd (TaskRepository_add_task ''2025-01-01 10:00:00'' WriteOk ''a'' ''b''
                     (TaskRepository_init [] Missing)))))
   \<and> unique_ids (snd (TaskRepository_update_task WriteOk
         \<lparr>task_id = 1, title = ''e'', description = ''f'', status = ''Completed'', created_date = ''g''\<rparr>
         (snd (TaskRepository_add_task ''2025-01-01 10:00:00'' WriteOk ''a'' ''b''
                     (TaskRepository_init [] Missing)))))
   \<and> unique_ids (snd (TaskRepository_delete_task WriteOk 1
         (snd (TaskRepository_add_task ''2025-01-01 10:00:00'' WriteOk ''a'' ''b''
                     (TaskRepository_init [] Missing)))))"
proof -
  let ?r = "snd (TaskRepository_add_task ''2025-01-01 10:00:00'' WriteOk ''a'' ''b''
                     (TaskRepository_init [] Missing))"
  have re: "reachable ?r" by (intro reachable.add reachable.no_file)
  have u: "unique_ids ?r"
    by (simp add: unique_ids_def TaskRepository_add_task_def TaskRepository_init_def load_tasks_def
        save_tasks_def get_next_id_def TaskModel_init_def Let_def)
  show ?thesis
    using re u
      unique_ids_invariant [of ?r "[]" WriteOk "''c''" "''d''"
        "\<lparr>task_id = 1, title = ''e'', description = ''f'', status = ''Completed'', created_date = ''g''\<rparr>" 1]
    by blast
qed

section \<open>Completing a task\<close>

lemma find_first_id: "find_first i ts = Some found \<Longrightarrow> task_id found = i"
  by (induction ts) (auto split: if_splits)

lemma find_first_assign_status:
  "find_first i (assign_status i s ts) = map_option (\<lambda>t. t\<lparr>status := s\<rparr>) (find_first i ts)"
  by (induction ts) auto

lemma replace_first_assign_status:
  "find_first i ts = Some found \<Longrightarrow>
     replace_first (found\<lparr>status := s\<rparr>) (assign_status i s ts) = Some (assign_status i s ts)"
proof (induction ts)
  case Nil
  then show ?case by simp
next
  case (Cons a ts)
  from Cons.prems have i: "task_id found = i" by (rule find_first_id)
  show ?case
  proof (cases "task_id a = i")
    case True
    with Cons.prems have "a = found" by simp
    with True show ?thesis by simp
  next
    case False
    with Cons.prems have "find_first i ts = Some found" by simp
    from Cons.IH [OF this] False i show ?thesis by simp
  qed
qed

lemma assign_status_twice: "assign_status i s (assign_status i s ts) = assign_status i s ts"
  by (induction ts) auto

lemma mark_complete_ok:
  assumes "int_py inp = Inr i" and "find_task_by_id i r = Some found"
  shows "TaskService_mark_complete WriteOk inp r =
           (Inr (found\<lparr>status := ''Completed''\<rparr>),
            \<lparr>tasks = assign_status i ''Completed'' (tasks r),
             disk = Stored (map to_dict (assign_status i ''Completed'' (tasks r)))\<rparr>)"
proof -
  from assms(2) have "find_first i (tasks r) = Some found" by (simp add: find_task_by_id_def)
  then have "replace_first (found\<lparr>status := ''Completed''\<rparr>) (assign_status i ''Completed'' (tasks r))
      = Some (assign_status i ''Completed'' (tasks r))"
    by (rule replace_first_assign_status)
  then show ?thesis
    using assms
    by (simp add: TaskService_mark_complete_def TaskRepository_update_task_def save_tasks_def Let_def)
qed

lemma mark_complete_tasks:
  assumes "int_py inp = Inr i" and "find_task_by_id i r = Some found"
  shows "tasks (snd (TaskService_mark_complete w inp r)) = assign_status i ''Completed'' (tasks r)"
proof -
  from assms(2) have "find_first i (tasks r) = Some found" by (simp add: find_task_by_id_def)
  then have "replace_first (found\<lparr>status := ''Completed''\<rparr>) (assign_status i ''Completed'' (tasks r))
      = Some (assign_status i ''Completed'' (tasks r))"
    by (rule replace_first_assign_status)
  then show ?thesis
    using assms
    by (cases w)
      (simp_all add: TaskService_mark_complete_def TaskRepository_update_task_def save_tasks_def Let_def)
qed

text \<open>
  C6. For the id of a task of the store, \<open>mark_complete\<close> twice in a row leaves the
  task with the status Completed after each call and the list of tasks after the second
  call as after the first, whatever the writes do; a call whose write succeeds raises no
  error and returns the completed task, the second call as the first.
\<close>

theorem mark_complete_idempotent:
  assumes "int_py inp = Inr i" and "find_task_by_id i r = Some found"
  shows "map_option status (find_task_by_id i (snd (TaskService_mark_complete w1 inp r)))
           = Some ''Completed''
     \<and> map_option status (find_task_by_id i
           (snd (TaskService_mark_complete w2 inp (snd (TaskService_mark_complete w1 inp r)))))
           = Some ''Completed''
     \<and> tasks (snd (TaskService_mark_complete w2 inp (snd (TaskService_mark_complete w1 inp r))))
           = tasks (snd (TaskService_mark_complete w1 inp r))
     \<and> (w1 = WriteOk \<longrightarrow>
           fst (TaskService_mark_complete w1 inp r) = Inr (found\<lparr>status := ''Completed''\<rparr>))
     \<and> (w2 = WriteOk \<longrightarrow>
           fst (TaskService_mark_complete w2 inp (snd (TaskService_mark_complete w1 inp r)))
             = Inr (found\<lparr>status := ''Completed''\<rparr>))"
proof -
  let ?t = "found\<lparr>status := ''Completed''\<rparr>"
  let ?r1 = "snd (TaskService_mark_complete w1 inp r)"
  let ?r2 = "snd (TaskService_mark_complete w2 inp ?r1)"
  have t1: "tasks ?r1 = assign_status i ''Completed'' (tasks r)"
    using assms by (rule mark_complete_tasks)
  have found1: "find_task_by_id i ?r1 = Some ?t"
    using assms(2) t1 by (simp add: find_task_by_id_def find_first_assign_status)
  have t2: "tasks ?r2 = assign_status i ''Completed'' (tasks ?r1)"
    using assms(1) found1 by (rule mark_complete_tasks)
  then have same: "tasks ?r2 = tasks ?r1" by (simp add: t1 assign_status_twice)
  have found2: "find_task_by_id i ?r2 = Some ?t"
    using found1 same by (simp add: find_task_by_id_def)
  have ok1: "fst (TaskService_mark_complete WriteOk inp r) = Inr ?t"
    using mark_complete_ok [OF assms] by simp
  have "fst (TaskService_mark_complete WriteOk inp ?r1) = Inr (?t\<lparr>status := ''Completed''\<rparr>)"
    using mark_complete_ok [OF assms(1) found1] by simp
  then have ok2: "fst (TaskService_mark_complete WriteOk inp ?r1) = Inr ?t" by simp
  from found1 found2 same ok1 ok2 show ?thesis by simp
qed

theorem mark_complete_idempotent_witness:
  "int_py (Text ''1'') = Inr 1
   \<and> find_task_by_id 1 \<lparr>tasks = [\<lparr>task_id = 1, title = ''a'', description = ''b'',
          status = ''Pending'', created_date = ''2025-01-01 10:00:00''\<rparr>], disk = Missing\<rparr>
       = Some \<lparr>task_id = 1, title = ''a'', description = ''b'',
          status = ''Pending'', created_date = ''2025-01-01 10:00:00''\<rparr>
   \<and> TaskService_mark_complete WriteOk (Text ''1'')
        \<lparr>tasks = [\<lparr>task_id = 1, title = ''a'', description = ''b'',
          status = ''Pending'', created_date = ''2025-01-01 10:00:00''\<rparr>], disk = Missing\<rparr>
       = (Inr \<lparr>task_id = 1, title = ''a'', description = ''b'',
              status = ''Completed'', created_date = ''2025-01-01 10:00:00''\<rparr>,
          \<lparr>tasks = [\<lparr>task_id = 1, title = ''a'', description = ''b'',
              status = ''Completed'', created_date = ''2025-01-01 10:00:00''\<rparr>],
           disk = Stored [\<lparr>d_id = 1, d_title = ''a'', d_description = ''b'',
              d_status = ''Completed'', d_created_date = ''2025-01-01 10:00:00''\<rparr>]\<rparr>)
   \<and> fst (TaskService_mark_complete WriteOk (Text ''1'')
          (snd (TaskService_mark_complete WriteOk (Text ''1'')
             \<lparr>tasks = [\<lparr>task_id = 1, title = ''a'', description = ''b'',
                status = ''Pending'', created_date = ''2025-01-01 10:00:00''\<rparr>], disk = Missing\<rparr>)))
       = Inr \<lparr>task_id = 1, title = ''a'', description = ''b'',
              status = ''Completed'', created_date = ''2025-01-01 10:00:00''\<rparr>
   \<and> map_option status (find_task_by_id 1
         (snd (TaskService_mark_complete WriteOk (Text ''1'')
          (snd (TaskService_mark_complete WriteOk (Text ''1'')
             \<lparr>tasks = [\<lparr>task_id = 1, title = ''a'', description = ''b'',
                status = ''Pending'', created_date = ''2025-01-01 10:00:00''\<rparr>], disk = Missing\<rparr>)))))
       = Some ''Completed''"
proof -
  let ?r = "\<lparr>tasks = [\<lparr>task_id = 1, title = ''a'', description = ''b'',
          status = ''Pending'', created_date = ''2025-01-01 10:00:00''\<rparr>], disk = Missing\<rparr>"
  have a: "int_py (Text ''1'') = Inr 1"
    by (simp add: int_of_str_def int_space_def int_magnitude_def isdigit_def digit_value_def)
  have b: "find_task_by_id 1 ?r
       = Some \<lparr>task_id = 1, title = ''a'', description = ''b'',
          status = ''Pending'', created_date = ''2025-01-01 10:00:00''\<rparr>"
    by (simp add: find_task_by_id_def)
  have c: "TaskService_mark_complete WriteOk (Text ''1'') ?r
       = (Inr \<lparr>task_id = 1, title = ''a'', description = ''b'',
              status = ''Completed'', created_date = ''2025-01-01 10:00:00''\<rparr>,
          \<lparr>tasks = [\<lparr>task_id = 1, title = ''a'', description = ''b'',
              status = ''Completed'', created_date = ''2025-01-01 10:00:00''\<rparr>],
           disk = Stored [\<lparr>d_id = 1, d_title = ''a'', d_description = ''b'',
              d_status = ''Completed'', d_created_date = ''2025-01-01 10:00:00''\<rparr>]\<rparr>)"
    using a by (simp add: TaskService_mark_complete_def find_task_by_id_def
        TaskRepository_update_task_def save_tasks_def to_dict_def Let_def)
  show ?thesis
    using a b c mark_complete_idempotent [OF a b, of WriteOk WriteOk] by simp
qed

text \<open>
  C7. A keyword that is empty or all whitespace gives the empty result. In the service
  over the database this is so for every behaviour of the repository's search, failing or
  changing the database included: the repository is not asked.
\<close>

theorem blank_search_returns_nothing:
  "(\<forall>c\<in>set keyword. isspace c) \<Longrightarrow>
     TaskService_search_tasks keyword r = []
     \<and> TaskService_search_tasks_pg repository_search_tasks keyword db = (Inr [], db)"
  by (simp add: TaskService_search_tasks_def TaskService_search_tasks_pg_def strip_Nil_iff)

theorem blank_search_returns_nothing_witness:
  "list_all isspace ''  ''
   \<and> TaskService_search_tasks ''  '' \<lparr>tasks = [\<lparr>task_id = 1, title = ''a b'', description = ''c'',
          status = ''Pending'', created_date = ''2025-01-01 10:00:00''\<rparr>], disk = Missing\<rparr> = []
   \<and> TaskService_search_tasks_pg
        (\<lambda>k db. (Inl (TaskManagerException ''Failed to search tasks: no connection''), Suc db))
        ''  '' (0::nat) = (Inr ([] :: TaskModel list), 0)"
proof -
  have h: "\<forall>c\<in>set ''  ''. isspace c" by (simp add: isspace_def)
  show ?thesis
    using h list_all_iff [of isspace "''  ''"]
      blank_search_returns_nothing [OF h, of "\<lparr>tasks = [\<lparr>task_id = 1, title = ''a b'', description = ''c'',
          status = ''Pending'', created_date = ''2025-01-01 10:00:00''\<rparr>], disk = Missing\<rparr>"
        "\<lambda>k db. (Inl (TaskManagerException ''Failed to search tasks: no connection''), Suc db)" "0::nat"]
    by blast
qed

section \<open>Search\<close>

lemma isspace_lower_char: "isspace (lower_char c) = isspace c"
proof -
  have "(of_char (char_of (of_char c + 32 :: nat)) :: nat) = (of_char c + 32) mod 256"
    by (rule of_char_of)
  then show ?thesis
    by (auto simp: isspace_def lower_char_def Let_def)
qed

lemma isspace_o_lower_char: "isspace \<circ> lower_char = isspace"
  by (rule ext) (simp add: isspace_lower_char)

lemma dropWhile_isspace_lower:
  "dropWhile isspace (map lower_char xs) = map lower_char (dropWhile isspace xs)"
  by (simp add: dropWhile_map isspace_o_lower_char)

lemma strip_lower: "strip (lower s) = lower (strip s)"
  by (simp only: strip_def lower_def dropWhile_isspace_lower rev_map)

lemma strip_surrounded:
  assumes a: "\<forall>c\<in>set a. isspace c" and b: "\<forall>c\<in>set b. isspace c"
  shows "strip (a @ k @ b) = strip k"
proof -
  have front: "dropWhile isspace (a @ k @ b) = dropWhile isspace (k @ b)"
    by (rule dropWhile_append2) (use a in simp)
  show ?thesis
  proof (cases "\<forall>c\<in>set k. isspace c")
    case True
    then have "dropWhile isspace (k @ b) = []" "dropWhile isspace k = []"
      using b by (simp_all add: dropWhile_eq_Nil_conv)
    with front show ?thesis by (simp only: strip_def)
  next
    case False
    then obtain x where "x \<in> set k" "\<not> isspace x" by blast
    then have "dropWhile isspace (k @ b) = dropWhile isspace k @ b"
      by (rule dropWhile_append1)
    moreover have "dropWhile isspace (rev b @ rev (dropWhile isspace k))
        = dropWhile isspace (rev (dropWhile isspace k))"
      by (rule dropWhile_append2) (use b in simp)
    ultimately show ?thesis using front by (simp add: strip_def)
  qed
qed

lemma strip_decompose:
  "\<exists>a b. s = a @ strip s @ b \<and> (\<forall>c\<in>set a. isspace c) \<and> (\<forall>c\<in>set b. isspace c)"
proof -
  let ?u = "dropWhile isspace s"
  have s: "s = takeWhile isspace s @ ?u" by simp
  have "rev ?u = takeWhile isspace (rev ?u) @ dropWhile isspace (rev ?u)" by simp
  then have "rev (rev ?u) = rev (takeWhile isspace (rev ?u) @ dropWhile isspace (rev ?u))"
    by (rule arg_cong)
  then have u: "?u = strip s @ rev (takeWhile isspace (rev ?u))"
    by (simp only: strip_def rev_append rev_rev_ident)
  have "s = takeWhile isspace s @ strip s @ rev (takeWhile isspace (rev ?u))"
    using s u by metis
  moreover have "\<forall>c\<in>set (takeWhile isspace s). isspace c"
    by (auto dest: set_takeWhileD)
  moreover have "\<forall>c\<in>set (rev (takeWhile isspace (rev ?u))). isspace c"
    by (auto dest: set_takeWhileD)
  ultimately show ?thesis by blast
qed

lemma strip_strip: "strip (strip s) = strip s"
proof -
  obtain a b where s: "s = a @ strip s @ b"
    and ab: "\<forall>c\<in>set a. isspace c" "\<forall>c\<in>set b. isspace c"
    using strip_decompose by blast
  from ab have "strip (a @ strip s @ b) = strip (strip s)" by (rule strip_surrounded)
  with s show ?thesis by simp
qed

text \<open>
  C10. A keyword that is not all whitespace, with whitespace put before and after it,
  gives the result of its stripped form, in the service of either variant.
\<close>

theorem search_strips_keyword:
  assumes "\<forall>c\<in>set a. isspace c" and "\<forall>c\<in>set b. isspace c" and "\<not> (\<forall>c\<in>set k. isspace c)"
  shows "TaskService_search_tasks (a @ k @ b) r = TaskService_search_tasks (strip k) r
     \<and> TaskService_search_tasks_pg repository_search_tasks (a @ k @ b) db
         = TaskService_search_tasks_pg repository_search_tasks (strip k) db"
proof -
  have st: "strip (a @ k @ b) = strip k" using assms(1,2) by (rule strip_surrounded)
  have ne: "strip k \<noteq> []" using assms(3) by (simp add: strip_Nil_iff)
  then have ne': "a @ k @ b \<noteq> []" using assms(3) by auto
  have l1: "strip (lower (a @ k @ b)) = lower (strip k)" by (simp add: strip_lower st)
  have l2: "strip (lower (strip k)) = lower (strip k)" by (simp add: strip_lower strip_strip)
  show ?thesis
    using st ne ne' l1 l2
    by (simp add: TaskService_search_tasks_def TaskService_search_tasks_pg_def strip_strip
        del: append_is_Nil_conv)
qed

theorem search_strips_keyword_witness:
  "list_all isspace '' '' \<and> list_all isspace ''  '' \<and> \<not> list_all isspace ''MILK''
   \<and> TaskService_search_tasks ('' '' @ ''MILK'' @ ''  '')
        \<lparr>tasks = [\<lparr>task_id = 1, title = ''Buy milk'', description = ''Get 2% milk'',
             status = ''Pending'', created_date = ''2025-01-01 10:00:00''\<rparr>], disk = Missing\<rparr>
      = TaskService_search_tasks (strip ''MILK'')
        \<lparr>tasks = [\<lparr>task_id = 1, title = ''Buy milk'', description = ''Get 2% milk'',
             status = ''Pending'', created_date = ''2025-01-01 10:00:00''\<rparr>], disk = Missing\<rparr>
   \<and> TaskService_search_tasks (strip ''MILK'')
        \<lparr>tasks = [\<lparr>task_id = 1, title = ''Buy milk'', description = ''Get 2% milk'',
             status = ''Pending'', created_date = ''2025-01-01 10:00:00''\<rparr>], disk = Missing\<rparr>
      = [\<lparr>task_id = 1, title = ''Buy milk'', description = ''Get 2% milk'',
             status = ''Pending'', created_date = ''2025-01-01 10:00:00''\<rparr>]
   \<and> TaskService_search_tasks_pg (\<lambda>k db. (Inr [k], db)) ('' '' @ ''MILK'' @ ''  '') ()
      = TaskService_search_tasks_pg (\<lambda>k db. (Inr [k], db)) (strip ''MILK'') ()"
proof -
  have a: "\<forall>c\<in>set '' ''. isspace c" by (simp add: isspace_def)
  have b: "\<forall>c\<in>set ''  ''. isspace c" by (simp add: isspace_def)
  have k: "\<not> (\<forall>c\<in>set ''MILK''. isspace c)" by (simp add: isspace_def)
  have ev: "TaskService_search_tasks (strip ''MILK'')
        \<lparr>tasks = [\<lparr>task_id = 1, title = ''Buy milk'', description = ''Get 2% milk'',
             status = ''Pending'', created_date = ''2025-01-01 10:00:00''\<rparr>], disk = Missing\<rparr>
      = [\<lparr>task_id = 1, title = ''Buy milk'', description = ''Get 2% milk'',
             status = ''Pending'', created_date = ''2025-01-01 10:00:00''\<rparr>]"
    by (simp add: TaskService_search_tasks_def strip_def isspace_def lower_def lower_char_def
        get_all_tasks_def char_of_eq_iff eq_char_of_iff)
  show ?thesis
    using a b k ev list_all_iff [of isspace]
      search_strips_keyword [OF a b k,
        of "\<lparr>tasks = [\<lparr>task_id = 1, title = ''Buy milk'', description = ''Get 2% milk'',
             status = ''Pending'', created_date = ''2025-01-01 10:00:00''\<rparr>], disk = Missing\<rparr>"
           "\<lambda>k db. (Inr [k], db)" "()"]
    by blast
qed

lemma startswith_iff: "startswith s k \<longleftrightarrow> (\<exists>after. s = k @ after)"
  by (induction s k rule: startswith.induct) auto

lemma str_contains_iff: "str_contains s k \<longleftrightarrow> (\<exists>before after. s = before @ k @ after)"
proof (induction s)
  case Nil
  then show ?case by auto
next
  case (Cons c cs)
  show ?case
  proof
    assume "str_contains (c # cs) k"
    then consider "startswith (c # cs) k" | "str_contains cs k" by auto
    then show "\<exists>before after. c # cs = before @ k @ after"
    proof cases
      case 1
      then obtain after where "c # cs = k @ after" by (auto simp: startswith_iff)
      then have "c # cs = [] @ k @ after" by simp
      then show ?thesis by blast
    next
      case 2
      then obtain before after where "cs = before @ k @ after" using Cons by blast
      then have "c # cs = (c # before) @ k @ after" by simp
      then show ?thesis by blast
    qed
  next
    assume "\<exists>before after. c # cs = before @ k @ after"
    then obtain before after where eq: "c # cs = before @ k @ after" by blast
    show "str_contains (c # cs) k"
    proof (cases before)
      case Nil
      with eq have "startswith (c # cs) k" by (auto simp: startswith_iff)
      then show ?thesis by simp
    next
      case (Cons x xs)
      with eq have "cs = xs @ k @ after" by simp
      then have "str_contains cs k" using Cons.IH by blast
      then show ?thesis by simp
    qed
  qed
qed

lemma contains_lower_iff:
  "str_contains (lower s) (lower k) \<longleftrightarrow> contains_ignoring_case s k"
proof
  assume "str_contains (lower s) (lower k)"
  then obtain before after where "map lower_char s = before @ (lower k @ after)"
    by (auto simp: str_contains_iff lower_def)
  then have "\<exists>us vs. s = us @ vs \<and> before = map lower_char us
      \<and> lower k @ after = map lower_char vs"
    by (simp only: map_eq_append_conv)
  then obtain b rest where s1: "s = b @ rest" and r: "lower k @ after = map lower_char rest"
    by blast
  from r have "\<exists>us vs. rest = us @ vs \<and> lower k = map lower_char us \<and> after = map lower_char vs"
    by (simp only: append_eq_map_conv)
  then obtain p a where "rest = p @ a" and "map lower_char p = lower k"
    by auto
  with s1 have "s = b @ p @ a \<and> equal_ignoring_case p k"
    by (simp add: equal_ignoring_case_def lower_def)
  then show "contains_ignoring_case s k" unfolding contains_ignoring_case_def by blast
next
  assume "contains_ignoring_case s k"
  then obtain b p a where "s = b @ p @ a" and "lower p = lower k"
    by (auto simp: contains_ignoring_case_def equal_ignoring_case_def)
  then have "lower s = lower b @ lower k @ lower a" by (simp add: lower_def)
  then show "str_contains (lower s) (lower k)" unfolding str_contains_iff by blast
qed




lemma service_search_tasks_spec:
  assumes "\<not> (\<forall>c\<in>set keyword. isspace c)"
  shows "TaskService_search_tasks keyword r =
     filter (\<lambda>t. contains_ignoring_case (title t) (strip keyword)
                  \<or> contains_ignoring_case (description t) (strip keyword)) (tasks r)"
proof -
  from assms have "strip keyword \<noteq> []" "keyword \<noteq> []" by (auto simp: strip_Nil_iff)
  then show ?thesis
    by (simp add: TaskService_search_tasks_def get_all_tasks_def strip_lower contains_lower_iff)
qed

end
